theory Spec2Isabelle
  imports Main "HOL-Library.Word" "HOL-Library.Signed_Division"
begin

section \<open>OlyObd: an OBD-II poller over CAN (src/main.cpp)\<close>

text \<open>
  The program targets the Arduino UNO (ATmega328P, avr-gcc), as the header of
  \<^verbatim>\<open>main.cpp\<close> says. On that target \<^verbatim>\<open>byte\<close> is an unsigned 8-bit value,
  \<^verbatim>\<open>int\<close> is a 16-bit two's complement value and \<^verbatim>\<open>unsigned long\<close> is an
  unsigned 32-bit value.
\<close>

subsection \<open>Machine integers\<close>

type_synonym byte = "8 word"
type_synonym ulong = "32 word"

text \<open>
  A C \<^verbatim>\<open>int\<close> is modelled by the mathematical integer it holds; every
  arithmetic result is brought back into the range - 32768..32767 by \<open>int16\<close>.
  C++ leaves signed overflow undefined; the 16-bit two's complement arithmetic of the
  AVR wraps around, and \<open>int16\<close> is that wrap-around. Where no operation overflows
  \<open>int16\<close> changes nothing (\<open>int16_id\<close> below).
\<close>

definition int16 :: "int \<Rightarrow> int" where
  "int16 x = (x + 32768) mod 65536 - 32768"

definition int_mul :: "int \<Rightarrow> int \<Rightarrow> int" where
  "int_mul a b = int16 (a * b)"

definition int_add :: "int \<Rightarrow> int \<Rightarrow> int" where
  "int_add a b = int16 (a + b)"

definition int_sub :: "int \<Rightarrow> int \<Rightarrow> int" where
  "int_sub a b = int16 (a - b)"

text \<open>C's \<^verbatim>\<open>/\<close> truncates towards zero: \<open>sdiv\<close>, not \<open>div\<close>.\<close>

definition int_div :: "int \<Rightarrow> int \<Rightarrow> int" where
  "int_div a b = int16 (a sdiv b)"

text \<open>Integral promotion of a \<^verbatim>\<open>byte\<close> to \<^verbatim>\<open>int\<close>.\<close>

definition promote :: "byte \<Rightarrow> int" where
  "promote b = uint b"

subsection \<open>Constants\<close>

definition PID_ENGINE_RPM :: byte where "PID_ENGINE_RPM = 0x0C"
definition PID_VEHICLE_SPEED :: byte where "PID_VEHICLE_SPEED = 0x0D"
definition PID_COOLANT_TEMP :: byte where "PID_COOLANT_TEMP = 0x05"
definition PID_THROTTLE_POSITION :: byte where "PID_THROTTLE_POSITION = 0x11"
definition PID_ENGINE_LOAD :: byte where "PID_ENGINE_LOAD = 0x04"

definition OBD_REQUEST_ID :: ulong where "OBD_REQUEST_ID = 0x7DF"
definition OBD_REQUEST_INTERVAL :: ulong where "OBD_REQUEST_INTERVAL = 1000"
definition CAN_TIMEOUT :: ulong where "CAN_TIMEOUT = 100"

subsection \<open>Arrays\<close>

text \<open>
  \<^verbatim>\<open>byte buf[8]\<close>, the receive buffer of \<^verbatim>\<open>readOBDResponse\<close>: exactly eight bytes.
  \<open>buf_at\<close> is the indexed read \<^verbatim>\<open>buf[i]\<close>; an index outside the array gives
  \<open>None\<close>.
\<close>

datatype buf8 = Buf8 byte byte byte byte byte byte byte byte

fun buf_at :: "buf8 \<Rightarrow> nat \<Rightarrow> byte option" where
  "buf_at (Buf8 b0 b1 b2 b3 b4 b5 b6 b7) i =
     (if i = 0 then Some b0 else if i = 1 then Some b1
      else if i = 2 then Some b2 else if i = 3 then Some b3
      else if i = 4 then Some b4 else if i = 5 then Some b5
      else if i = 6 then Some b6 else if i = 7 then Some b7
      else None)"

subsection \<open>The CAN controller, the clock and the serial port\<close>

text \<open>
  The MCP2515 driver (\<^verbatim>\<open>mcp_can.h\<close>) and the Arduino core are not part of the
  sources. What \<^verbatim>\<open>main.cpp\<close> observes of them is kept in the state:
  \<^item> \<open>clock\<close> is the value \<^verbatim>\<open>millis()\<close> returns; \<^verbatim>\<open>delay(n)\<close> advances it by
    \<open>n\<close>, and nothing else does (driver calls take no measurable time);
  \<^item> \<open>inbox\<close> lists what the successive polls of the controller will find:
    \<open>None\<close> when \<^verbatim>\<open>CAN.checkReceive()\<close> does not answer \<^verbatim>\<open>CAN_MSGAVAIL\<close>, and
    \<open>Some f\<close> when it does, \<open>f\<close> being what \<^verbatim>\<open>CAN.readMsgBuf\<close> and
    \<^verbatim>\<open>CAN.getCanId\<close> then deliver; once the list is used up no frame arrives any more;
  \<^item> \<open>sent\<close> lists the calls of \<^verbatim>\<open>CAN.sendMsgBuf\<close>, oldest first;
  \<^item> \<open>serial\<close> lists what was printed, oldest first.
  \<open>lastRequestTime\<close> is the program's only global variable.
\<close>

record rx_frame =
  rx_id :: ulong
  rx_len :: byte
  rx_buf :: buf8

record tx_frame =
  tx_id :: ulong
  tx_ext :: byte
  tx_len :: byte
  tx_data :: "byte list"

datatype serial_item = Text string | Number int | Newline

record state =
  lastRequestTime :: ulong
  clock :: ulong
  inbox :: "rx_frame option list"
  sent :: "tx_frame list"
  serial :: "serial_item list"

definition millis :: "state \<Rightarrow> ulong" where
  "millis s = clock s"

definition delay :: "ulong \<Rightarrow> state \<Rightarrow> state" where
  "delay n s = s\<lparr>clock := clock s + n\<rparr>"

definition sendMsgBuf :: "ulong \<Rightarrow> byte \<Rightarrow> byte \<Rightarrow> byte list \<Rightarrow> state \<Rightarrow> state" where
  "sendMsgBuf ident ext len buf s =
     s\<lparr>sent := sent s @ [\<lparr>tx_id = ident, tx_ext = ext, tx_len = len, tx_data = buf\<rparr>]\<rparr>"

definition poll :: "state \<Rightarrow> rx_frame option \<times> state" where
  "poll s = (case inbox s of
               [] \<Rightarrow> (None, s)
             | p # ps \<Rightarrow> (p, s\<lparr>inbox := ps\<rparr>))"

definition print :: "serial_item list \<Rightarrow> state \<Rightarrow> state" where
  "print items s = s\<lparr>serial := serial s @ items\<rparr>"

subsection \<open>sendOBDRequest\<close>

definition sendOBDRequest :: "byte \<Rightarrow> state \<Rightarrow> state" where
  "sendOBDRequest pid s =
     (let request = [0x02, 0x01, pid, 0x00, 0x00, 0x00, 0x00, 0x00]
      in sendMsgBuf OBD_REQUEST_ID 0 8 request s)"

subsection \<open>readOBDResponse\<close>

text \<open>
  What the body of the \<^verbatim>\<open>if (CAN_MSGAVAIL == ...)\<close> block does with one frame:
  the identifier test, then \<^verbatim>\<open>buf[1] == 0x41 && buf[2] == pid\<close> (the second
  operand read only when the first holds), then the copy loop
  \<^verbatim>\<open>response[i] = buf[3 + i]\<close> for \<open>i\<close> from 0 to 4. \<open>BadIndex\<close> records a read outside
  the buffer.
\<close>

datatype frame_check = Matched "byte list" | Ignored | BadIndex

fun copy_response :: "buf8 \<Rightarrow> nat list \<Rightarrow> byte list option" where
  "copy_response buf [] = Some []"
| "copy_response buf (i # is) =
     (case buf_at buf (3 + i) of
        None \<Rightarrow> None
      | Some v \<Rightarrow> (case copy_response buf is of
                     None \<Rightarrow> None
                   | Some vs \<Rightarrow> Some (v # vs)))"

definition check_frame :: "byte \<Rightarrow> rx_frame \<Rightarrow> frame_check" where
  "check_frame pid f =
     (let canId = rx_id f; buf = rx_buf f in
      if canId \<ge> 0x7E8 \<and> canId \<le> 0x7EF then
        (case buf_at buf 1 of
           None \<Rightarrow> BadIndex
         | Some m \<Rightarrow>
             if m = 0x41 then
               (case buf_at buf 2 of
                  None \<Rightarrow> BadIndex
                | Some p \<Rightarrow>
                    if p = pid then
                      (case copy_response buf [0..<5] of
                         None \<Rightarrow> BadIndex
                       | Some response \<Rightarrow> Matched response)
                    else Ignored)
             else Ignored)
      else Ignored)"

text \<open>
  The result of \<^verbatim>\<open>readOBDResponse\<close>: \<open>Response r\<close> is \<^verbatim>\<open>true\<close> with \<open>r\<close> the five
  bytes written to \<^verbatim>\<open>response\<close>, \<open>Timeout\<close> is \<^verbatim>\<open>false\<close>, and \<open>OutOfBounds\<close>
  marks a read outside the receive buffer.
\<close>

datatype exchange = Response "byte list" | Timeout | OutOfBounds

function readOBDResponse_loop :: "byte \<Rightarrow> ulong \<Rightarrow> state \<Rightarrow> exchange \<times> state" where
  "readOBDResponse_loop pid startTime s =
     (if millis s - startTime < CAN_TIMEOUT then
        (case poll s of
           (None, s1) \<Rightarrow> readOBDResponse_loop pid startTime (delay 5 s1)
         | (Some f, s1) \<Rightarrow>
             (case check_frame pid f of
                Matched response \<Rightarrow> (Response response, s1)
              | BadIndex \<Rightarrow> (OutOfBounds, s1)
              | Ignored \<Rightarrow> readOBDResponse_loop pid startTime (delay 5 s1)))
      else (Timeout, s))"
  by pat_completeness auto

lemma clock_poll: "clock (snd (poll s)) = clock s"
  by (simp add: poll_def split: list.splits)

lemma unat_elapsed_step:
  fixes c st :: ulong
  assumes "c - st < 100"
  shows "unat (c + 5 - st) = unat (c - st) + 5"
proof -
  have lt: "unat (c - st) < 100"
    using assms by (simp add: word_less_nat_alt)
  have e: "c + 5 - st = (c - st) + 5" by simp
  have "unat ((c - st) + 5) = unat (c - st) + unat (5 :: ulong)"
    by (rule unat_add_lem [THEN iffD1]) (use lt in simp)
  then show ?thesis unfolding e by simp
qed

lemma loop_measure:
  assumes t: "millis s - startTime < CAN_TIMEOUT" and p: "(x, y) = poll s"
  shows "100 - unat (clock (delay 5 y) - startTime) < 100 - unat (clock s - startTime)"
proof -
  have c: "clock y = clock s"
    using p clock_poll [of s] by (metis snd_conv)
  have lt: "clock s - startTime < 100"
    using t by (simp add: millis_def CAN_TIMEOUT_def)
  then have "unat (clock s - startTime) < 100"
    by (simp add: word_less_nat_alt)
  moreover have "unat (clock s + 5 - startTime) = unat (clock s - startTime) + 5"
    using lt by (rule unat_elapsed_step)
  ultimately show ?thesis
    by (simp add: delay_def c)
qed

termination readOBDResponse_loop
  apply (relation "measure (\<lambda>(pid, startTime, s). 100 - unat (clock s - startTime))")
    apply simp
   apply (simp add: loop_measure)
  apply (simp add: loop_measure)
  done

declare readOBDResponse_loop.simps [simp del]

definition readOBDResponse :: "byte \<Rightarrow> state \<Rightarrow> exchange \<times> state" where
  "readOBDResponse pid s = (let startTime = millis s in readOBDResponse_loop pid startTime s)"

subsection \<open>The five readings\<close>

text \<open>
  The value each \<^verbatim>\<open>get...\<close> function computes from the response bytes, as the
  C expression computes it in \<^verbatim>\<open>int\<close> arithmetic:
  \<^verbatim>\<open>((response[0] * 256) + response[1]) / 4\<close>, \<^verbatim>\<open>response[0]\<close>,
  \<^verbatim>\<open>response[0] - 40\<close> and \<^verbatim>\<open>(response[0] * 100) / 255\<close>.
\<close>

definition decodeEngineRPM :: "byte list \<Rightarrow> int" where
  "decodeEngineRPM response =
     int_div (int_add (int_mul (promote (response ! 0)) 256) (promote (response ! 1))) 4"

definition decodeVehicleSpeed :: "byte list \<Rightarrow> int" where
  "decodeVehicleSpeed response = promote (response ! 0)"

definition decodeCoolantTemp :: "byte list \<Rightarrow> int" where
  "decodeCoolantTemp response = int_sub (promote (response ! 0)) 40"

definition decodeThrottlePosition :: "byte list \<Rightarrow> int" where
  "decodeThrottlePosition response = int_div (int_mul (promote (response ! 0)) 100) 255"

definition decodeEngineLoad :: "byte list \<Rightarrow> int" where
  "decodeEngineLoad response = int_div (int_mul (promote (response ! 0)) 100) 255"

definition getEngineRPM :: "state \<Rightarrow> int \<times> state" where
  "getEngineRPM s =
     (let s1 = sendOBDRequest PID_ENGINE_RPM s in
      case readOBDResponse PID_ENGINE_RPM s1 of
        (Response response, s2) \<Rightarrow> (let rpm = decodeEngineRPM response in (rpm, s2))
      | (_, s2) \<Rightarrow> (- 1, s2))"

definition getVehicleSpeed :: "state \<Rightarrow> int \<times> state" where
  "getVehicleSpeed s =
     (let s1 = sendOBDRequest PID_VEHICLE_SPEED s in
      case readOBDResponse PID_VEHICLE_SPEED s1 of
        (Response response, s2) \<Rightarrow> (decodeVehicleSpeed response, s2)
      | (_, s2) \<Rightarrow> (- 1, s2))"

definition getCoolantTemp :: "state \<Rightarrow> int \<times> state" where
  "getCoolantTemp s =
     (let s1 = sendOBDRequest PID_COOLANT_TEMP s in
      case readOBDResponse PID_COOLANT_TEMP s1 of
        (Response response, s2) \<Rightarrow> (decodeCoolantTemp response, s2)
      | (_, s2) \<Rightarrow> (- 999, s2))"

definition getThrottlePosition :: "state \<Rightarrow> int \<times> state" where
  "getThrottlePosition s =
     (let s1 = sendOBDRequest PID_THROTTLE_POSITION s in
      case readOBDResponse PID_THROTTLE_POSITION s1 of
        (Response response, s2) \<Rightarrow> (decodeThrottlePosition response, s2)
      | (_, s2) \<Rightarrow> (- 1, s2))"

definition getEngineLoad :: "state \<Rightarrow> int \<times> state" where
  "getEngineLoad s =
     (let s1 = sendOBDRequest PID_ENGINE_LOAD s in
      case readOBDResponse PID_ENGINE_LOAD s1 of
        (Response response, s2) \<Rightarrow> (decodeEngineLoad response, s2)
      | (_, s2) \<Rightarrow> (- 1, s2))"

subsection \<open>setup and loop\<close>

text \<open>
  The program starts with \<^verbatim>\<open>lastRequestTime = 0\<close>. \<^verbatim>\<open>setup\<close> never returns
  when \<^verbatim>\<open>CAN.begin\<close> fails (\<^verbatim>\<open>while (1) delay(1000)\<close>); \<open>can_ok\<close> says
  whether it answered \<^verbatim>\<open>CAN_OK\<close>. \<^verbatim>\<open>Serial.begin\<close> and \<^verbatim>\<open>CAN.setMode\<close> change
  nothing the state records. \<^verbatim>\<open>setup\<close> is a command name of Isabelle, hence
  \<open>setup_main\<close>.
\<close>

definition startup :: "ulong \<Rightarrow> rx_frame option list \<Rightarrow> state" where
  "startup t frames =
     \<lparr>lastRequestTime = 0, clock = t, inbox = frames, sent = [], serial = []\<rparr>"

partial_function (option) halt :: "state \<Rightarrow> state option" where
  "halt s = halt (delay 1000 s)"

definition setup_main :: "bool \<Rightarrow> state \<Rightarrow> state option" where
  "setup_main can_ok s =
     (let s1 = print [Text ''OlyObd - OBD-II CAN-BUS Reader'', Newline,
                      Text ''==============================='', Newline, Newline,
                      Text ''Initializing CAN-BUS Shield...''] s
      in if can_ok then
           Some (delay 1000
             (print [Text '' OK'', Newline,
                     Text ''CAN-BUS Shield initialized successfully'', Newline,
                     Text ''Waiting for OBD-II data...'', Newline, Newline] s1))
         else
           halt (print [Text '' FAILED'', Newline,
                        Text ''Check connections and reset Arduino'', Newline] s1))"

text \<open>
  The block of \<^verbatim>\<open>loop\<close> that follows the assignment to \<^verbatim>\<open>lastRequestTime\<close>:
  the five readings and their reports, in the order of the source.
\<close>

definition sweep :: "state \<Rightarrow> state" where
  "sweep s0 =
     (let s1 = print [Text ''--- Reading OBD-II Data ---'', Newline] s0;
          (rpm, s2) = getEngineRPM s1;
          s3 = (if rpm \<ge> 0
                then print [Text ''Engine RPM: '', Number rpm, Text '' RPM'', Newline] s2
                else print [Text ''Engine RPM: READ FAILED'', Newline] s2);
          (speed, s4) = getVehicleSpeed s3;
          s5 = (if speed \<ge> 0
                then print [Text ''Vehicle Speed: '', Number speed, Text '' km/h'', Newline] s4
                else print [Text ''Vehicle Speed: READ FAILED'', Newline] s4);
          (coolant, s6) = getCoolantTemp s5;
          s7 = (if coolant \<noteq> - 999
                then print [Text ''Coolant Temp: '', Number coolant,
                            Text ('' '' @ [CHR 0xC2, CHR 0xB0] @ ''C''), Newline] s6
                else print [Text ''Coolant Temp: READ FAILED'', Newline] s6);
          (throttle, s8) = getThrottlePosition s7;
          s9 = (if throttle \<ge> 0
                then print [Text ''Throttle Position: '', Number throttle, Text '' %'', Newline] s8
                else print [Text ''Throttle Position: READ FAILED'', Newline] s8);
          (load, s10) = getEngineLoad s9;
          s11 = (if load \<ge> 0
                 then print [Text ''Engine Load: '', Number load, Text '' %'', Newline] s10
                 else print [Text ''Engine Load: READ FAILED'', Newline] s10)
      in print [Newline] s11)"

definition loop :: "state \<Rightarrow> state" where
  "loop s =
     (let currentTime = millis s;
          s' = (if currentTime - lastRequestTime s \<ge> OBD_REQUEST_INTERVAL
                then sweep (s\<lparr>lastRequestTime := currentTime\<rparr>)
                else s)
      in delay 10 s')"

section \<open>Notions used to state the properties\<close>

text \<open>
  \<open>outcome_of\<close> is what one iteration of the polling loop makes of a poll: a poll
  that finds no frame is passed over like a frame that does not match.
  \<open>with_inbox g\<close> replaces every future poll result \<open>p\<close> by \<open>g p\<close>.
  \<open>on_grid st s\<close> says that the time elapsed since \<open>st\<close> is a multiple of the
  5 ms idle interval and at most the 100 ms of the timeout.
\<close>

definition with_inbox :: "(rx_frame option \<Rightarrow> rx_frame option) \<Rightarrow> state \<Rightarrow> state" where
  "with_inbox g s = s\<lparr>inbox := map g (inbox s)\<rparr>"

definition outcome_of :: "byte \<Rightarrow> rx_frame option \<Rightarrow> frame_check" where
  "outcome_of pid p = (case p of None \<Rightarrow> Ignored | Some f \<Rightarrow> check_frame pid f)"

definition on_grid :: "ulong \<Rightarrow> state \<Rightarrow> bool" where
  "on_grid st s = (unat (clock s - st) \<le> 100 \<and> 5 dvd unat (clock s - st))"

text \<open>
  Concrete inputs: \<open>bus t frames\<close> is a freshly started program at time \<open>t\<close> whose
  polls will find \<open>frames\<close>; \<open>reply pid a b\<close> is the frame an ECU at 0x7E8 answers
  to a Mode 01 request for \<open>pid\<close> with the data bytes \<open>a\<close> and \<open>b\<close>.
\<close>

definition bus :: "ulong \<Rightarrow> rx_frame option list \<Rightarrow> state" where
  "bus t frames = \<lparr>lastRequestTime = 0, clock = t, inbox = frames, sent = [], serial = []\<rparr>"

definition reply :: "byte \<Rightarrow> byte \<Rightarrow> byte \<Rightarrow> rx_frame" where
  "reply pid a b = \<lparr>rx_id = 0x7E8, rx_len = 8, rx_buf = Buf8 0x04 0x41 pid a b 0 0 0\<rparr>"

text \<open>
  \<open>request pid\<close> is the call \<^verbatim>\<open>CAN.sendMsgBuf(0x7DF, 0, 8, request)\<close> for \<open>pid\<close>.
  \<open>mute pid\<close> turns every poll result that is not a matching response for \<open>pid\<close>
  into a poll that finds nothing; \<open>set_len h\<close> changes the length each frame reports.
  \<open>busy_bus\<close> and \<open>mixed_bus\<close> are buses with traffic, and \<open>booted\<close> is the state in
  which \<^verbatim>\<open>setup\<close> returns when the program starts at time 0 on a quiet bus.
\<close>

definition request :: "byte \<Rightarrow> tx_frame" where
  "request pid = \<lparr>tx_id = 0x7DF, tx_ext = 0, tx_len = 8,
                  tx_data = [0x02, 0x01, pid, 0x00, 0x00, 0x00, 0x00, 0x00]\<rparr>"

definition mute :: "byte \<Rightarrow> rx_frame option \<Rightarrow> rx_frame option" where
  "mute pid p = (case outcome_of pid p of Matched r \<Rightarrow> p | _ \<Rightarrow> None)"

definition set_len :: "(rx_frame \<Rightarrow> byte) \<Rightarrow> rx_frame option \<Rightarrow> rx_frame option" where
  "set_len h p = map_option (\<lambda>f. f\<lparr>rx_len := h f\<rparr>) p"

definition busy_bus :: state where
  "busy_bus = bus 0 [Some (reply 0x0D 0x3C 0x00), None, Some (reply 0x0C 0x1A 0xF8)]"

definition mixed_bus :: state where
  "mixed_bus = bus 1000 [Some (reply 0x0C 0x1A 0xF8), Some (reply 0x0C 0x1A 0xF8)]"

definition booted :: state where
  "booted = the (setup_main True (startup 0 []))"

text \<open>
  \<open>query pid\<close> is one exchange: the request for \<open>pid\<close> is sent and
  \<^verbatim>\<open>readOBDResponse\<close> waits for its answer. \<open>queried pids s\<close> is the state after the
  exchanges for \<open>pids\<close> have run one after the other from \<open>s\<close>, each on the state the one
  before left, and \<open>outcomes pids s\<close> lists their results in that order.
  \<open>reading\<close> is the value a \<^verbatim>\<open>get...\<close> function returns for the result of its
  exchange, \<open>report_line\<close> what \<^verbatim>\<open>loop\<close> prints for one value, and \<open>sweep_report\<close>
  the whole report of a sweep whose five exchanges had the given results.
\<close>

definition query :: "byte \<Rightarrow> state \<Rightarrow> exchange \<times> state" where
  "query pid s = readOBDResponse pid (sendOBDRequest pid s)"

fun queried :: "byte list \<Rightarrow> state \<Rightarrow> state" where
  "queried [] s = s"
| "queried (pid # pids) s = queried pids (snd (query pid s))"

fun outcomes :: "byte list \<Rightarrow> state \<Rightarrow> exchange list" where
  "outcomes [] s = []"
| "outcomes (pid # pids) s = fst (query pid s) # outcomes pids (snd (query pid s))"

definition reading :: "(byte list \<Rightarrow> int) \<Rightarrow> int \<Rightarrow> exchange \<Rightarrow> int" where
  "reading decode sentinel x = (case x of Response r \<Rightarrow> decode r | _ \<Rightarrow> sentinel)"

definition report_line :: "string \<Rightarrow> string \<Rightarrow> bool \<Rightarrow> int \<Rightarrow> serial_item list" where
  "report_line label unit ok v =
     (if ok then [Text (label @ '': ''), Number v, Text unit, Newline]
      else [Text (label @ '': READ FAILED''), Newline])"

definition sweep_report :: "exchange list \<Rightarrow> serial_item list" where
  "sweep_report xs =
     (let rpm = reading decodeEngineRPM (- 1) (xs ! 0);
          speed = reading decodeVehicleSpeed (- 1) (xs ! 1);
          coolant = reading decodeCoolantTemp (- 999) (xs ! 2);
          throttle = reading decodeThrottlePosition (- 1) (xs ! 3);
          load = reading decodeEngineLoad (- 1) (xs ! 4)
      in [Text ''--- Reading OBD-II Data ---'', Newline]
         @ report_line ''Engine RPM'' '' RPM'' (rpm \<ge> 0) rpm
         @ report_line ''Vehicle Speed'' '' km/h'' (speed \<ge> 0) speed
         @ report_line ''Coolant Temp'' ('' '' @ [CHR 0xC2, CHR 0xB0] @ ''C'') (coolant \<noteq> - 999) coolant
         @ report_line ''Throttle Position'' '' %'' (throttle \<ge> 0) throttle
         @ report_line ''Engine Load'' '' %'' (load \<ge> 0) load
         @ [Newline])"

section \<open>Integer arithmetic of the readings\<close>

lemma promote_range: "0 \<le> promote b \<and> promote b < 256"
  using uint_lt2p [of b] by (simp add: promote_def)

lemma int16_id: "- 32768 \<le> x \<Longrightarrow> x < 32768 \<Longrightarrow> int16 x = x"
  by (simp add: int16_def)

lemma int16_wrap: 
  assumes "32768 \<le> x" "x < 98304" shows "int16 x = x - 65536"
proof -
  have "(x + 32768) mod 65536 = ((x - 32768) + 65536) mod 65536"
    by (rule arg_cong [where f = "\<lambda>y. y mod 65536"]) simp
  also have "\<dots> = (x - 32768) mod 65536" by (rule mod_add_self2)
  also have "\<dots> = x - 32768" using assms by (simp add: mod_pos_pos_trivial)
  finally show ?thesis by (simp add: int16_def)
qed

lemma sdiv_nonneg: "0 \<le> a \<Longrightarrow> 0 < b \<Longrightarrow> a sdiv b = a div (b::int)"
  by (simp add: signed_divide_int_def sgn_if)

lemma decodeVehicleSpeed_formula: "decodeVehicleSpeed [b0, b1, b2, b3, b4] = uint b0"
  by (simp add: decodeVehicleSpeed_def promote_def)

lemma decodeCoolantTemp_formula: "decodeCoolantTemp [b0, b1, b2, b3, b4] = uint b0 - 40"
proof -
  have "int16 (promote b0 - 40) = promote b0 - 40"
    using promote_range [of b0] by (intro int16_id) linarith+
  then show ?thesis
    by (simp add: decodeCoolantTemp_def int_sub_def promote_def)
qed

lemma percent_formula: "int_div (int_mul (promote b) 100) 255 = (uint b * 100) div 255"
proof -
  have r: "0 \<le> uint b" "uint b < 256" using promote_range [of b] by (simp_all add: promote_def)
  have m: "int_mul (promote b) 100 = uint b * 100"
    unfolding int_mul_def promote_def using r by (intro int16_id) linarith+
  have d: "0 \<le> (uint b * 100) div 255" "(uint b * 100) div 255 < 32768" using r by linarith+
  have "int_div (uint b * 100) 255 = (uint b * 100) div 255"
    unfolding int_div_def using r d by (simp add: sdiv_nonneg int16_id)
  then show ?thesis by (simp add: m)
qed


lemma decodeThrottlePosition_formula:
  "decodeThrottlePosition [b0, b1, b2, b3, b4] = (uint b0 * 100) div 255"
  by (simp add: decodeThrottlePosition_def percent_formula)

lemma decodeEngineLoad_formula:
  "decodeEngineLoad [b0, b1, b2, b3, b4] = (uint b0 * 100) div 255"
  by (simp add: decodeEngineLoad_def percent_formula)

lemma decodeEngineRPM_low:
  assumes "b0 < 0x80"
  shows "decodeEngineRPM [b0, b1, b2, b3, b4] = (uint b0 * 256 + uint b1) div 4"
proof -
  have r0: "0 \<le> uint b0" "uint b0 < 128" using assms by (simp_all add: word_less_def)
  have r1: "0 \<le> uint b1" "uint b1 < 256" using promote_range [of b1] by (simp_all add: promote_def)
  have m: "int_mul (promote b0) 256 = uint b0 * 256"
    unfolding int_mul_def promote_def using r0 by (intro int16_id) linarith+
  have a: "int_add (uint b0 * 256) (promote b1) = uint b0 * 256 + uint b1"
    unfolding int_add_def promote_def using r0 r1 by (intro int16_id) linarith+
  have d: "0 \<le> (uint b0 * 256 + uint b1) div 4" "(uint b0 * 256 + uint b1) div 4 < 32768"
    using r0 r1 by linarith+
  have "int_div (uint b0 * 256 + uint b1) 4 = (uint b0 * 256 + uint b1) div 4"
    unfolding int_div_def using r0 r1 d by (simp add: sdiv_nonneg int16_id)
  then show ?thesis
    by (simp add: decodeEngineRPM_def m a)
qed

lemma sdiv_neg_4: "x < 0 \<Longrightarrow> x sdiv 4 = - ((- x) div (4::int))"
  by (simp add: signed_divide_int_def sgn_if)

lemma decodeEngineRPM_high:
  assumes "0x80 \<le> b0"
  shows "decodeEngineRPM [b0, b1, b2, b3, b4] = - ((65536 - (uint b0 * 256 + uint b1)) div 4)" 
proof -
  have r0: "128 \<le> uint b0" "uint b0 < 256" using assms uint_lt2p [of b0] by (simp_all add: word_le_def)
  have r1: "0 \<le> uint b1" "uint b1 < 256" using promote_range [of b1] by (simp_all add: promote_def)
  have m: "int_mul (promote b0) 256 = uint b0 * 256 - 65536"
    unfolding int_mul_def promote_def using r0 by (intro int16_wrap) linarith+
  have "int16 (uint b0 * 256 - 65536 + uint b1) = uint b0 * 256 - 65536 + uint b1"
    using r0 r1 by (intro int16_id) linarith+
  then have a: "int_add (uint b0 * 256 - 65536) (promote b1) = uint b0 * 256 + uint b1 - 65536"
    by (simp add: int_add_def promote_def)
  define x where "x = uint b0 * 256 + uint b1 - 65536"
  have x: "- 32768 \<le> x" "x < 0" unfolding x_def using r0 r1 by linarith+
  have s: "x sdiv 4 = - ((- x) div 4)" using x by (simp add: sdiv_neg_4)
  have d: "- 32768 \<le> - ((- x) div 4)" "- ((- x) div 4) < 32768" using x by linarith+
  have "int_div x 4 = - ((- x) div 4)"
    unfolding int_div_def s using d by (rule int16_id)
  then show ?thesis
    by (simp add: decodeEngineRPM_def m a x_def)
qed

section \<open>The polling loop\<close>

lemma copy_response_buf:
  "copy_response (Buf8 b0 b1 b2 b3 b4 b5 b6 b7) [0..<5] = Some [b3, b4, b5, b6, b7]"
proof -
  have "[0..<5] = [0, 1, 2, 3, 4::nat]" by (simp add: upt_rec)
  then show ?thesis by simp
qed

lemma check_frame_eq:
  "check_frame pid \<lparr>rx_id = i, rx_len = n, rx_buf = Buf8 b0 b1 b2 b3 b4 b5 b6 b7\<rparr> =
     (if 0x7E8 \<le> i \<and> i \<le> 0x7EF \<and> b1 = 0x41 \<and> b2 = pid
      then Matched [b3, b4, b5, b6, b7] else Ignored)"
  by (simp add: check_frame_def Let_def copy_response_buf)

lemma check_frame_not_BadIndex: "check_frame pid f \<noteq> BadIndex"
proof (cases f)
  case (fields i n buf)
  then show ?thesis by (cases buf) (simp add: check_frame_eq)
qed

lemma loop_unfold:
  "readOBDResponse_loop pid st s =
     (if clock s - st < 100 then
        (case fst (poll s) of
           None \<Rightarrow> readOBDResponse_loop pid st (delay 5 (snd (poll s)))
         | Some f \<Rightarrow>
            (case check_frame pid f of
               Matched r \<Rightarrow> (Response r, snd (poll s))
             | Ignored \<Rightarrow> readOBDResponse_loop pid st (delay 5 (snd (poll s)))
             | BadIndex \<Rightarrow> (OutOfBounds, snd (poll s))))
      else (Timeout, s))"
  by (cases "poll s")
     (simp add: readOBDResponse_loop.simps [of pid st s] millis_def CAN_TIMEOUT_def
        split: option.splits frame_check.splits)

lemma loop_induct [case_names step]:
  assumes step: "\<And>s. (clock s - st < 100 \<Longrightarrow> P (delay 5 (snd (poll s)))) \<Longrightarrow> P s"
  shows "P s"
proof (induction "100 - unat (clock s - st)" arbitrary: s rule: less_induct)
  case less
  show ?case
  proof (rule step)
    assume t: "clock s - st < 100"
    have "100 - unat (clock (delay 5 (snd (poll s))) - st) < 100 - unat (clock s - st)"
      by (rule loop_measure [of s st "fst (poll s)"]) (simp_all add: t millis_def CAN_TIMEOUT_def)
    then show "P (delay 5 (snd (poll s)))" by (rule less)
  qed
qed

lemma sent_poll: "sent (snd (poll s)) = sent s"
  by (simp add: poll_def split: list.splits)

lemma lastRequestTime_poll: "lastRequestTime (snd (poll s)) = lastRequestTime s"
  by (simp add: poll_def split: list.splits)

lemma serial_poll: "serial (snd (poll s)) = serial s"
  by (simp add: poll_def split: list.splits)

lemma loop_sent: "sent (snd (readOBDResponse_loop pid st s)) = sent s"
proof (induction s rule: loop_induct [where st = st])
  case (step s)
  show ?case
    by (subst loop_unfold)
       (use step in \<open>simp add: sent_poll delay_def split: option.splits frame_check.splits\<close>)
qed

lemma loop_lastRequestTime:
  "lastRequestTime (snd (readOBDResponse_loop pid st s)) = lastRequestTime s"
proof (induction s rule: loop_induct [where st = st])
  case (step s)
  show ?case
    by (subst loop_unfold)
       (use step in \<open>simp add: lastRequestTime_poll delay_def split: option.splits frame_check.splits\<close>)
qed

lemma loop_serial: "serial (snd (readOBDResponse_loop pid st s)) = serial s"
proof (induction s rule: loop_induct [where st = st])
  case (step s)
  show ?case
    by (subst loop_unfold)
       (use step in \<open>simp add: serial_poll delay_def split: option.splits frame_check.splits\<close>)
qed

lemma loop_not_OutOfBounds: "fst (readOBDResponse_loop pid st s) \<noteq> OutOfBounds"
proof (induction s rule: loop_induct [where st = st])
  case (step s)
  show ?case
    by (subst loop_unfold)
       (use step in \<open>simp add: check_frame_not_BadIndex split: option.splits frame_check.splits\<close>)
qed

lemma loop_Timeout_elapsed:
  "fst (readOBDResponse_loop pid st s) = Timeout \<Longrightarrow>
     \<not> clock (snd (readOBDResponse_loop pid st s)) - st < 100"
proof (induction s rule: loop_induct [where st = st])
  case (step s)
  show ?case
  proof (cases "clock s - st < 100")
    case False
    then have "readOBDResponse_loop pid st s = (Timeout, s)"
      by (subst loop_unfold) simp
    with False show ?thesis by simp
  next
    case True
    note IH = step.IH [OF True]
    show ?thesis
    proof (cases "fst (poll s)")
      case None
      then have e: "readOBDResponse_loop pid st s =
          readOBDResponse_loop pid st (delay 5 (snd (poll s)))"
        using True by (subst loop_unfold) simp
      show ?thesis using step.prems IH unfolding e by simp
    next
      case (Some f)
      show ?thesis
      proof (cases "check_frame pid f")
        case (Matched r)
        then have "readOBDResponse_loop pid st s = (Response r, snd (poll s))"
          using True Some by (subst loop_unfold) simp
        with step.prems show ?thesis by simp
      next
        case Ignored
        then have e: "readOBDResponse_loop pid st s =
            readOBDResponse_loop pid st (delay 5 (snd (poll s)))"
          using True Some by (subst loop_unfold) simp
        show ?thesis using step.prems IH unfolding e by simp
      next
        case BadIndex
        then show ?thesis by (simp add: check_frame_not_BadIndex)
      qed
    qed
  qed
qed


lemma outcome_of_cases:
  obtains (skip) "outcome_of pid p = Ignored" | (match) r where "outcome_of pid p = Matched r"
  using check_frame_not_BadIndex [of pid]
  by (cases "outcome_of pid p") (auto simp: outcome_of_def split: option.splits)

lemma loop_expired:
  "\<not> clock s - st < 100 \<Longrightarrow> readOBDResponse_loop pid st s = (Timeout, s)"
  by (subst loop_unfold) simp

lemma loop_skip:
  "clock s - st < 100 \<Longrightarrow> outcome_of pid (fst (poll s)) = Ignored \<Longrightarrow>
   readOBDResponse_loop pid st s = readOBDResponse_loop pid st (delay 5 (snd (poll s)))"
  by (subst loop_unfold) (simp add: outcome_of_def split: option.splits)

lemma loop_match:
  "clock s - st < 100 \<Longrightarrow> outcome_of pid (fst (poll s)) = Matched r \<Longrightarrow>
   readOBDResponse_loop pid st s = (Response r, snd (poll s))"
  by (subst loop_unfold) (simp add: outcome_of_def split: option.splits)

lemma clock_with_inbox: "clock (with_inbox g s) = clock s"
  by (simp add: with_inbox_def)

lemma fst_poll_with_inbox:
  "outcome_of pid (g None) = Ignored \<Longrightarrow>
   outcome_of pid (fst (poll (with_inbox g s))) = outcome_of pid (g (fst (poll s)))"
  by (simp add: poll_def with_inbox_def outcome_of_def split: list.splits)

lemma snd_poll_with_inbox: "snd (poll (with_inbox g s)) = with_inbox g (snd (poll s))"
  by (simp add: poll_def with_inbox_def split: list.splits)

lemma delay_with_inbox: "delay n (with_inbox g s) = with_inbox g (delay n s)"
  by (simp add: delay_def with_inbox_def)

lemma loop_with_inbox:
  assumes g: "\<And>p. outcome_of pid (g p) = outcome_of pid p"
  shows "readOBDResponse_loop pid st (with_inbox g s) =
         (fst (readOBDResponse_loop pid st s), with_inbox g (snd (readOBDResponse_loop pid st s)))"
proof (induction s rule: loop_induct [where st = st])
  case (step s)
  have gN: "outcome_of pid (g None) = Ignored"
    using g [of None] by (simp add: outcome_of_def)
  have o: "outcome_of pid (fst (poll (with_inbox g s))) = outcome_of pid (fst (poll s))"
    using fst_poll_with_inbox [of pid g s] gN by (simp add: g)
  show ?case
  proof (cases "clock s - st < 100")
    case False
    then show ?thesis by (simp add: loop_expired clock_with_inbox)
  next
    case True
    then have T': "clock (with_inbox g s) - st < 100" by (simp add: clock_with_inbox)
    show ?thesis
    proof (cases pid "fst (poll s)" rule: outcome_of_cases)
      case skip
      have "readOBDResponse_loop pid st (with_inbox g s) =
            readOBDResponse_loop pid st (with_inbox g (delay 5 (snd (poll s))))"
        using loop_skip [OF T'] skip o by (simp add: snd_poll_with_inbox delay_with_inbox)
      then show ?thesis
        using step [OF True] loop_skip [OF True skip] by simp
    next
      case (match r)
      then show ?thesis
        using loop_match [OF T', of pid r] loop_match [OF True match] o
        by (simp add: snd_poll_with_inbox)
    qed
  qed
qed

lemma on_grid_step:
  assumes "on_grid st s" and t: "clock s - st < 100"
  shows "on_grid st (delay 5 (snd (poll s)))"
proof -
  have e: "unat (clock s + 5 - st) = unat (clock s - st) + 5"
    using t by (rule unat_elapsed_step)
  have "unat (clock s - st) < 100" using t by (simp add: word_less_nat_alt)
  moreover have "5 dvd unat (clock s - st)" using assms by (simp add: on_grid_def)
  ultimately have "unat (clock s - st) + 5 \<le> 100 \<and> 5 dvd unat (clock s - st) + 5"
    by presburger
  then show ?thesis by (simp add: on_grid_def delay_def clock_poll e)
qed

lemma loop_on_grid:
  "on_grid st s \<Longrightarrow> on_grid st (snd (readOBDResponse_loop pid st s))"
proof (induction s rule: loop_induct [where st = st])
  case (step s)
  show ?case
  proof (cases "clock s - st < 100")
    case False
    then show ?thesis using step.prems by (simp add: loop_expired)
  next
    case True
    show ?thesis
    proof (cases pid "fst (poll s)" rule: outcome_of_cases)
      case skip
      then show ?thesis
        using step.IH [OF True on_grid_step [OF step.prems True]] loop_skip [OF True skip]
        by simp
    next
      case (match r)
      then show ?thesis
        using loop_match [OF True match] step.prems by (simp add: on_grid_def clock_poll)
    qed
  qed
qed

lemma loop_Response_elapsed:
  "fst (readOBDResponse_loop pid st s) = Response r \<Longrightarrow>
     clock (snd (readOBDResponse_loop pid st s)) - st < 100"
proof (induction s rule: loop_induct [where st = st])
  case (step s)
  show ?case
  proof (cases "clock s - st < 100")
    case False
    then show ?thesis using step.prems by (simp add: loop_expired)
  next
    case True
    show ?thesis
    proof (cases pid "fst (poll s)" rule: outcome_of_cases)
      case skip
      then show ?thesis
        using step.IH [OF True] step.prems loop_skip [OF True skip] by simp
    next
      case (match r')
      then show ?thesis
        using loop_match [OF True match] True by (simp add: clock_poll)
    qed
  qed
qed

lemma loop_silent:
  "set (inbox s) \<subseteq> {None} \<Longrightarrow> fst (readOBDResponse_loop pid st s) = Timeout"
proof (induction s rule: loop_induct [where st = st])
  case (step s)
  show ?case
  proof (cases "clock s - st < 100")
    case False
    then show ?thesis by (simp add: loop_expired)
  next
    case True
    have p: "fst (poll s) = None" and q: "set (inbox (delay 5 (snd (poll s)))) \<subseteq> {None}"
      using step.prems by (auto simp: poll_def delay_def split: list.splits)
    have "outcome_of pid (fst (poll s)) = Ignored" by (simp add: p outcome_of_def)
    then show ?thesis
      using step.IH [OF True q] loop_skip [OF True] by simp
  qed
qed


section \<open>Requests, readings and the sweep\<close>

lemma sendOBDRequest_eq: "sendOBDRequest pid s = s\<lparr>sent := sent s @ [request pid]\<rparr>"
  by (simp add: sendOBDRequest_def sendMsgBuf_def request_def OBD_REQUEST_ID_def)

lemma readOBDResponse_sent: "sent (snd (readOBDResponse pid s)) = sent s"
  by (simp add: readOBDResponse_def loop_sent)

lemma readOBDResponse_lastRequestTime:
  "lastRequestTime (snd (readOBDResponse pid s)) = lastRequestTime s"
  by (simp add: readOBDResponse_def loop_lastRequestTime)

lemma snd_getEngineRPM:
  "snd (getEngineRPM s) = snd (readOBDResponse PID_ENGINE_RPM (sendOBDRequest PID_ENGINE_RPM s))"
  by (simp add: getEngineRPM_def Let_def split: prod.splits exchange.splits)

lemma snd_getVehicleSpeed:
  "snd (getVehicleSpeed s) =
     snd (readOBDResponse PID_VEHICLE_SPEED (sendOBDRequest PID_VEHICLE_SPEED s))"
  by (simp add: getVehicleSpeed_def Let_def split: prod.splits exchange.splits)

lemma snd_getCoolantTemp:
  "snd (getCoolantTemp s) =
     snd (readOBDResponse PID_COOLANT_TEMP (sendOBDRequest PID_COOLANT_TEMP s))"
  by (simp add: getCoolantTemp_def Let_def split: prod.splits exchange.splits)

lemma snd_getThrottlePosition:
  "snd (getThrottlePosition s) =
     snd (readOBDResponse PID_THROTTLE_POSITION (sendOBDRequest PID_THROTTLE_POSITION s))"
  by (simp add: getThrottlePosition_def Let_def split: prod.splits exchange.splits)

lemma snd_getEngineLoad:
  "snd (getEngineLoad s) =
     snd (readOBDResponse PID_ENGINE_LOAD (sendOBDRequest PID_ENGINE_LOAD s))"
  by (simp add: getEngineLoad_def Let_def split: prod.splits exchange.splits)

lemmas snd_get =
  snd_getEngineRPM snd_getVehicleSpeed snd_getCoolantTemp snd_getThrottlePosition
  snd_getEngineLoad

lemma query_sent:
  "sent (snd (readOBDResponse pid (sendOBDRequest pid s))) = sent s @ [request pid]"
  by (simp add: readOBDResponse_sent sendOBDRequest_eq)

lemma query_lastRequestTime:
  "lastRequestTime (snd (readOBDResponse pid (sendOBDRequest pid s))) = lastRequestTime s"
  by (simp add: readOBDResponse_lastRequestTime sendOBDRequest_eq)

lemma report_sent: "sent (if c then print a s else print b s) = sent s"
  by (simp add: print_def)

lemma report_lastRequestTime:
  "lastRequestTime (if c then print a s else print b s) = lastRequestTime s"
  by (simp add: print_def)

lemma sweep_sent:
  "sent (sweep s) = sent s @ [request PID_ENGINE_RPM, request PID_VEHICLE_SPEED,
     request PID_COOLANT_TEMP, request PID_THROTTLE_POSITION, request PID_ENGINE_LOAD]"
  by (simp add: sweep_def Let_def case_prod_beta snd_get query_sent report_sent print_def)

lemma sweep_lastRequestTime: "lastRequestTime (sweep s) = lastRequestTime s"
  by (simp add: sweep_def Let_def case_prod_beta snd_get query_lastRequestTime
      report_lastRequestTime print_def)


lemma on_grid_start: "on_grid (clock s) s"
  by (simp add: on_grid_def)

lemma readOBDResponse_elapsed_le:
  "unat (clock (snd (readOBDResponse pid s)) - clock s) \<le> 100"
  using loop_on_grid [where st = "clock s" and s = s and pid = pid, OF on_grid_start]
  by (simp add: readOBDResponse_def millis_def on_grid_def)

lemma readOBDResponse_Timeout_iff:
  "(fst (readOBDResponse pid s) = Timeout) =
     (unat (clock (snd (readOBDResponse pid s)) - clock s) = 100)"
proof
  assume "fst (readOBDResponse pid s) = Timeout"
  then have "\<not> clock (snd (readOBDResponse pid s)) - clock s < 100"
    using loop_Timeout_elapsed [of pid "clock s" s] by (simp add: readOBDResponse_def millis_def)
  then have "100 \<le> unat (clock (snd (readOBDResponse pid s)) - clock s)"
    by (simp add: word_less_nat_alt)
  then show "unat (clock (snd (readOBDResponse pid s)) - clock s) = 100"
    using readOBDResponse_elapsed_le [of pid s] by simp
next
  assume e: "unat (clock (snd (readOBDResponse pid s)) - clock s) = 100"
  show "fst (readOBDResponse pid s) = Timeout"
  proof (cases "fst (readOBDResponse pid s)")
    case (Response r)
    then have "clock (snd (readOBDResponse pid s)) - clock s < 100"
      using loop_Response_elapsed [of pid "clock s" s r]
      by (simp add: readOBDResponse_def millis_def)
    then show ?thesis using e by (simp add: word_less_nat_alt)
  next
    case Timeout
    then show ?thesis .
  next
    case OutOfBounds
    then show ?thesis
      using loop_not_OutOfBounds [of pid "clock s" s] by (simp add: readOBDResponse_def millis_def)
  qed
qed

lemma outcome_of_mute: "outcome_of pid (mute pid p) = outcome_of pid p"
  using check_frame_not_BadIndex [of pid]
  by (cases "outcome_of pid p") (auto simp: mute_def outcome_of_def split: option.splits)

lemma outcome_of_set_len: "outcome_of pid (set_len h p) = outcome_of pid p"
proof (cases p)
  case None
  then show ?thesis by (simp add: set_len_def)
next
  case (Some f)
  have "check_frame pid (f\<lparr>rx_len := h f\<rparr>) = check_frame pid f"
    by (simp add: check_frame_def)
  with Some show ?thesis by (simp add: set_len_def outcome_of_def)
qed

lemma readOBDResponse_with_inbox:
  assumes "\<And>p. outcome_of pid (g p) = outcome_of pid p"
  shows "readOBDResponse pid (with_inbox g s) =
         (fst (readOBDResponse pid s), with_inbox g (snd (readOBDResponse pid s)))"
  using loop_with_inbox [of pid g "clock s" s, OF assms]
  by (simp add: readOBDResponse_def millis_def clock_with_inbox)

lemma loop_discard:
  assumes "inbox s = Some f # rest" "check_frame pid f = Ignored" "clock s - st < 100"
  shows "readOBDResponse_loop pid st s =
         readOBDResponse_loop pid st (delay 5 (s\<lparr>inbox := rest\<rparr>))"
proof -
  have "outcome_of pid (fst (poll s)) = Ignored" "snd (poll s) = s\<lparr>inbox := rest\<rparr>"
    using assms by (simp_all add: poll_def outcome_of_def)
  then show ?thesis using loop_skip [OF assms(3), of pid] by simp
qed

lemma sweep_requests:
  "sent (sweep s) = sent s @ map request [0x0C, 0x0D, 0x05, 0x11, 0x04]"
  by (simp add: sweep_sent PID_ENGINE_RPM_def PID_VEHICLE_SPEED_def PID_COOLANT_TEMP_def
      PID_THROTTLE_POSITION_def PID_ENGINE_LOAD_def)

lemma halt_never: "halt s \<noteq> Some s'"
proof
  assume h: "halt s = Some s'"
  show False
    by (rule halt.raw_induct [where P = "\<lambda>_ _. False", OF _ h]) blast
qed

lemma setup_main_lastRequestTime:
  "setup_main ok s = Some s' \<Longrightarrow> lastRequestTime s' = lastRequestTime s"
  by (auto simp: setup_main_def Let_def print_def delay_def halt_never split: if_splits)

lemma loop_stamp:
  "lastRequestTime (loop s) =
     (if OBD_REQUEST_INTERVAL \<le> clock s - lastRequestTime s then clock s
      else lastRequestTime s)"
  by (simp add: loop_def Let_def millis_def delay_def sweep_lastRequestTime)

lemma inbox_poll: "set (inbox (snd (poll s))) \<subseteq> set (inbox s)"
  by (auto simp: poll_def split: list.splits)

lemma loop_inbox: "set (inbox (snd (readOBDResponse_loop pid st s))) \<subseteq> set (inbox s)"
proof (induction s rule: loop_induct [where st = st])
  case (step s)
  show ?case
  proof (cases "clock s - st < 100")
    case False
    then show ?thesis by (simp add: loop_expired)
  next
    case True
    have d: "inbox (delay 5 (snd (poll s))) = inbox (snd (poll s))"
      by (simp add: delay_def)
    show ?thesis
    proof (cases pid "fst (poll s)" rule: outcome_of_cases)
      case skip
      then show ?thesis
        using step [OF True] inbox_poll [of s] loop_skip [OF True skip] d by auto
    next
      case (match r)
      then show ?thesis
        using loop_match [OF True match] inbox_poll [of s] by simp
    qed
  qed
qed

lemma query_silent:
  assumes "set (inbox s) \<subseteq> {None}"
  shows "clock (snd (readOBDResponse pid (sendOBDRequest pid s))) = clock s + 100"
    and "set (inbox (snd (readOBDResponse pid (sendOBDRequest pid s)))) \<subseteq> {None}"
proof -
  let ?s = "sendOBDRequest pid s"
  have i: "set (inbox ?s) \<subseteq> {None}" and c: "clock ?s = clock s"
    using assms by (simp_all add: sendOBDRequest_eq)
  have "fst (readOBDResponse pid ?s) = Timeout"
    using i by (simp add: readOBDResponse_def loop_silent)
  then have "unat (clock (snd (readOBDResponse pid ?s)) - clock ?s) = 100"
    by (simp add: readOBDResponse_Timeout_iff)
  then have "clock (snd (readOBDResponse pid ?s)) - clock ?s = 100"
    by (simp add: word_unat_eq_iff)
  then show "clock (snd (readOBDResponse pid ?s)) = clock s + 100"
    by (simp add: c algebra_simps)
  show "set (inbox (snd (readOBDResponse pid ?s))) \<subseteq> {None}"
    using loop_inbox [of pid "clock ?s" ?s] i by (simp add: readOBDResponse_def millis_def)
qed

lemma report_clock: "clock (if c then print a s else print b s) = clock s"
  by (simp add: print_def)

lemma report_inbox: "inbox (if c then print a s else print b s) = inbox s"
  by (simp add: print_def)

lemma sweep_clock_silent:
  assumes "set (inbox s) \<subseteq> {None}"
  shows "clock (sweep s) = clock s + 500"
proof -
  have p: "clock (print a s) = clock s" "inbox (print a s) = inbox s" for a s
    by (simp_all add: print_def)
  show ?thesis
    using assms
    by (simp add: sweep_def Let_def case_prod_beta snd_get query_silent report_clock report_inbox p)
qed

section \<open>The sweep as five exchanges\<close>

lemma poll_serial_upd:
  "fst (poll (s\<lparr>serial := x\<rparr>)) = fst (poll s)"
  "snd (poll (s\<lparr>serial := x\<rparr>)) = (snd (poll s))\<lparr>serial := x\<rparr>"
  by (simp_all add: poll_def split: list.splits)

lemma loop_serial_upd:
  "readOBDResponse_loop pid st (s\<lparr>serial := x\<rparr>) =
     (fst (readOBDResponse_loop pid st s), (snd (readOBDResponse_loop pid st s))\<lparr>serial := x\<rparr>)"
proof (induction s rule: loop_induct [where st = st])
  case (step s)
  have d: "delay 5 ((snd (poll s))\<lparr>serial := x\<rparr>) = (delay 5 (snd (poll s)))\<lparr>serial := x\<rparr>"
    by (simp add: delay_def)
  show ?case
  proof (cases "clock s - st < 100")
    case False
    then show ?thesis by (simp add: loop_expired)
  next
    case True
    then have T': "clock (s\<lparr>serial := x\<rparr>) - st < 100" by simp
    show ?thesis
    proof (cases pid "fst (poll s)" rule: outcome_of_cases)
      case skip
      then have "outcome_of pid (fst (poll (s\<lparr>serial := x\<rparr>))) = Ignored"
        by (simp add: poll_serial_upd)
      then show ?thesis
        using loop_skip [OF T', of pid] loop_skip [OF True skip] step [OF True]
        by (simp add: poll_serial_upd d)
    next
      case (match r)
      then have "outcome_of pid (fst (poll (s\<lparr>serial := x\<rparr>))) = Matched r"
        by (simp add: poll_serial_upd)
      then show ?thesis
        using loop_match [OF T', of pid r] loop_match [OF True match]
        by (simp add: poll_serial_upd)
    qed
  qed
qed

lemma query_serial: "serial (snd (query pid s)) = serial s"
  by (simp add: query_def readOBDResponse_def loop_serial sendOBDRequest_eq)

lemma query_print:
  "query pid (print a s) = (fst (query pid s), print a (snd (query pid s)))"
proof -
  have "sendOBDRequest pid (print a s) = (sendOBDRequest pid s)\<lparr>serial := serial s @ a\<rparr>"
    by (simp add: sendOBDRequest_eq print_def)
  then show ?thesis
    using query_serial [of pid s]
    by (simp add: query_def readOBDResponse_def millis_def loop_serial_upd print_def Let_def)
qed

lemma print_print: "print b (print a s) = print (a @ b) s"
  by (simp add: print_def)

lemma get_query:
  "getEngineRPM s = (reading decodeEngineRPM (- 1) (fst (query 0x0C s)), snd (query 0x0C s))"
  "getVehicleSpeed s = (reading decodeVehicleSpeed (- 1) (fst (query 0x0D s)), snd (query 0x0D s))"
  "getCoolantTemp s = (reading decodeCoolantTemp (- 999) (fst (query 0x05 s)), snd (query 0x05 s))"
  "getThrottlePosition s =
     (reading decodeThrottlePosition (- 1) (fst (query 0x11 s)), snd (query 0x11 s))"
  "getEngineLoad s = (reading decodeEngineLoad (- 1) (fst (query 0x04 s)), snd (query 0x04 s))"
  by (simp_all add: getEngineRPM_def getVehicleSpeed_def getCoolantTemp_def
      getThrottlePosition_def getEngineLoad_def query_def reading_def Let_def
      PID_ENGINE_RPM_def PID_VEHICLE_SPEED_def PID_COOLANT_TEMP_def
      PID_THROTTLE_POSITION_def PID_ENGINE_LOAD_def split: prod.splits exchange.splits)

lemma report_print:
  "(if ok then print [Text (label @ '': ''), Number v, Text unit, Newline] s
    else print [Text (label @ '': READ FAILED''), Newline] s) =
   print (report_line label unit ok v) s"
  by (simp add: report_line_def)

lemma sweep_queried:
  "sweep s = print (sweep_report (outcomes [0x0C, 0x0D, 0x05, 0x11, 0x04] s))
               (queried [0x0C, 0x0D, 0x05, 0x11, 0x04] s)"
proof -
  define A0 where "A0 = [Text ''--- Reading OBD-II Data ---'', Newline]"
  define o1 where "o1 = fst (query 0x0C s)"
  define q1 where "q1 = snd (query 0x0C s)"
  define v1 where "v1 = reading decodeEngineRPM (- 1) o1"
  define A1 where "A1 = A0 @ report_line ''Engine RPM'' '' RPM'' (v1 \<ge> 0) v1"
  have g1: "getEngineRPM (print A0 s) = (v1, print A0 q1)"
    by (simp add: get_query query_print v1_def o1_def q1_def)
  have p1: "(if v1 \<ge> 0
      then print [Text ''Engine RPM: '', Number v1, Text '' RPM'', Newline] (print A0 q1)
      else print [Text ''Engine RPM: READ FAILED'', Newline] (print A0 q1)) = print A1 q1"
    by (simp add: A1_def report_line_def print_print)
  define o2 where "o2 = fst (query 0x0D q1)"
  define q2 where "q2 = snd (query 0x0D q1)"
  define v2 where "v2 = reading decodeVehicleSpeed (- 1) o2"
  define A2 where "A2 = A1 @ report_line ''Vehicle Speed'' '' km/h'' (v2 \<ge> 0) v2"
  have g2: "getVehicleSpeed (print A1 q1) = (v2, print A1 q2)"
    by (simp add: get_query query_print v2_def o2_def q2_def)
  have p2: "(if v2 \<ge> 0
      then print [Text ''Vehicle Speed: '', Number v2, Text '' km/h'', Newline] (print A1 q2)
      else print [Text ''Vehicle Speed: READ FAILED'', Newline] (print A1 q2)) = print A2 q2"
    by (simp add: A2_def report_line_def print_print)
  define o3 where "o3 = fst (query 0x05 q2)"
  define q3 where "q3 = snd (query 0x05 q2)"
  define v3 where "v3 = reading decodeCoolantTemp (- 999) o3"
  define A3 where "A3 = A2 @ report_line ''Coolant Temp'' ('' '' @ [CHR 0xC2, CHR 0xB0] @ ''C'') (v3 \<noteq> - 999) v3"
  have g3: "getCoolantTemp (print A2 q2) = (v3, print A2 q3)"
    by (simp add: get_query query_print v3_def o3_def q3_def)
  have p3: "(if v3 \<noteq> - 999
      then print [Text ''Coolant Temp: '', Number v3, Text ('' '' @ [CHR 0xC2, CHR 0xB0] @ ''C''), Newline] (print A2 q3)
      else print [Text ''Coolant Temp: READ FAILED'', Newline] (print A2 q3)) = print A3 q3"
    by (simp add: A3_def report_line_def print_print)
  define o4 where "o4 = fst (query 0x11 q3)"
  define q4 where "q4 = snd (query 0x11 q3)"
  define v4 where "v4 = reading decodeThrottlePosition (- 1) o4"
  define A4 where "A4 = A3 @ report_line ''Throttle Position'' '' %'' (v4 \<ge> 0) v4"
  have g4: "getThrottlePosition (print A3 q3) = (v4, print A3 q4)"
    by (simp add: get_query query_print v4_def o4_def q4_def)
  have p4: "(if v4 \<ge> 0
      then print [Text ''Throttle Position: '', Number v4, Text '' %'', Newline] (print A3 q4)
      else print [Text ''Throttle Position: READ FAILED'', Newline] (print A3 q4)) = print A4 q4"
    by (simp add: A4_def report_line_def print_print)
  define o5 where "o5 = fst (query 0x04 q4)"
  define q5 where "q5 = snd (query 0x04 q4)"
  define v5 where "v5 = reading decodeEngineLoad (- 1) o5"
  define A5 where "A5 = A4 @ report_line ''Engine Load'' '' %'' (v5 \<ge> 0) v5"
  have g5: "getEngineLoad (print A4 q4) = (v5, print A4 q5)"
    by (simp add: get_query query_print v5_def o5_def q5_def)
  have p5: "(if v5 \<ge> 0
      then print [Text ''Engine Load: '', Number v5, Text '' %'', Newline] (print A4 q5)
      else print [Text ''Engine Load: READ FAILED'', Newline] (print A4 q5)) = print A5 q5"
    by (simp add: A5_def report_line_def print_print)
  have "sweep s = print [Newline] (print A5 q5)"
    unfolding sweep_def Let_def A0_def [symmetric] g1 g2 g3 g4 g5 case_prod_conv p1 p2 p3 p4 p5
    by (rule refl)
  moreover have "outcomes [0x0C, 0x0D, 0x05, 0x11, 0x04] s = [o1, o2, o3, o4, o5]"
    "queried [0x0C, 0x0D, 0x05, 0x11, 0x04] s = q5"
    by (simp_all add: o1_def q1_def o2_def q2_def o3_def q3_def o4_def q4_def o5_def q5_def)
  moreover have "sweep_report [o1, o2, o3, o4, o5] = A5 @ [Newline]"
    by (simp add: sweep_report_def Let_def A5_def A4_def A3_def A2_def A1_def A0_def
        v1_def v2_def v3_def v4_def v5_def)
  ultimately show ?thesis
    by (simp add: print_print)
qed


lemma query_not_OutOfBounds: "fst (query pid s) \<noteq> OutOfBounds"
  by (simp add: query_def readOBDResponse_def loop_not_OutOfBounds)

section \<open>Evaluation on concrete inputs\<close>

lemmas eval_defs =
  getEngineRPM_def getVehicleSpeed_def getCoolantTemp_def getThrottlePosition_def
  getEngineLoad_def sendOBDRequest_def sendMsgBuf_def readOBDResponse_def
  readOBDResponse_loop.simps millis_def delay_def poll_def check_frame_def
  CAN_TIMEOUT_def OBD_REQUEST_ID_def PID_ENGINE_RPM_def PID_VEHICLE_SPEED_def
  PID_COOLANT_TEMP_def PID_THROTTLE_POSITION_def PID_ENGINE_LOAD_def
  decodeEngineRPM_def decodeVehicleSpeed_def decodeCoolantTemp_def
  decodeThrottlePosition_def decodeEngineLoad_def
  int_div_def int_add_def int_mul_def int_sub_def int16_def promote_def
  signed_divide_int_def bus_def reply_def upt_rec

lemma spec_examples:
  "decodeEngineRPM [0x1A, 0xF8, 0, 0, 0] = 1726 \<and>
   decodeVehicleSpeed [0x3C, 0, 0, 0, 0] = 60 \<and>
   decodeCoolantTemp [0x5A, 0, 0, 0, 0] = 50 \<and>
   decodeThrottlePosition [0x80, 0, 0, 0, 0] = 50 \<and>
   decodeEngineLoad [0xFF, 0, 0, 0, 0] = 100"
  by (simp add: eval_defs)

lemma uint_byte_range: "0 \<le> uint (b :: byte) \<and> uint b < 256"
  using uint_lt2p [of b] by simp

lemma readings_off_sentinel:
  "decodeVehicleSpeed [b0, b1, b2, b3, b4] \<noteq> - 1 \<and>
   decodeCoolantTemp [b0, b1, b2, b3, b4] \<noteq> - 999 \<and>
   decodeThrottlePosition [b0, b1, b2, b3, b4] \<noteq> - 1 \<and>
   decodeEngineLoad [b0, b1, b2, b3, b4] \<noteq> - 1"
proof -
  have r: "0 \<le> uint b0" "uint b0 < 256"
    using uint_byte_range [of b0] by simp_all
  have d: "0 \<le> (uint b0 * 100) div 255"
    using r by linarith
  show ?thesis
    unfolding decodeVehicleSpeed_formula decodeCoolantTemp_formula
      decodeThrottlePosition_formula decodeEngineLoad_formula
    using r d by (intro conjI) linarith+
qed

lemma readings_in_range:
  "0 \<le> decodeVehicleSpeed [b0, b1, b2, b3, b4] \<and>
   decodeVehicleSpeed [b0, b1, b2, b3, b4] \<le> 255 \<and>
   - 40 \<le> decodeCoolantTemp [b0, b1, b2, b3, b4] \<and>
   decodeCoolantTemp [b0, b1, b2, b3, b4] \<le> 215 \<and>
   0 \<le> decodeThrottlePosition [b0, b1, b2, b3, b4] \<and>
   decodeThrottlePosition [b0, b1, b2, b3, b4] \<le> 100 \<and>
   0 \<le> decodeEngineLoad [b0, b1, b2, b3, b4] \<and>
   decodeEngineLoad [b0, b1, b2, b3, b4] \<le> 100"
proof -
  have r: "0 \<le> uint b0" "uint b0 < 256"
    using uint_byte_range [of b0] by simp_all
  have d: "0 \<le> (uint b0 * 100) div 255" "(uint b0 * 100) div 255 \<le> 100"
    using r by linarith+
  show ?thesis
    unfolding decodeVehicleSpeed_formula decodeCoolantTemp_formula
      decodeThrottlePosition_formula decodeEngineLoad_formula
    using r d by (intro conjI) linarith+
qed

section \<open>The claims\<close>

text \<open>
  C1. The response-matching check of \<^verbatim>\<open>readOBDResponse\<close> accepts a frame for a
  queried PID exactly when its identifier lies in 0x7E8..0x7EF, byte 1 of the buffer is
  0x41 and byte 2 is the PID; every other frame is passed over, among them identifiers
  0x7E7 and 0x7F0 and mode bytes 0x40 and 0x42.
\<close>

theorem C1_matching_check:
  "((\<exists>r. check_frame pid f = Matched r) =
      (0x7E8 \<le> unat (rx_id f) \<and> unat (rx_id f) \<le> 0x7EF \<and>
       buf_at (rx_buf f) 1 = Some 0x41 \<and> buf_at (rx_buf f) 2 = Some pid)) \<and>
   ((check_frame pid f = Ignored) =
      (\<not> (0x7E8 \<le> unat (rx_id f) \<and> unat (rx_id f) \<le> 0x7EF \<and>
          buf_at (rx_buf f) 1 = Some 0x41 \<and> buf_at (rx_buf f) 2 = Some pid))) \<and>
   check_frame pid (f\<lparr>rx_id := 0x7E7\<rparr>) = Ignored \<and>
   check_frame pid (f\<lparr>rx_id := 0x7F0\<rparr>) = Ignored \<and>
   check_frame pid (f\<lparr>rx_buf := Buf8 b0 0x40 b2 b3 b4 b5 b6 b7\<rparr>) = Ignored \<and>
   check_frame pid (f\<lparr>rx_buf := Buf8 b0 0x42 b2 b3 b4 b5 b6 b7\<rparr>) = Ignored"
proof (cases f)
  case (fields i n buf)
  have lo: "(0x7E8 \<le> i) = (0x7E8 \<le> unat i)" and hi: "(i \<le> 0x7EF) = (unat i \<le> 0x7EF)"
    by (simp_all add: word_le_nat_alt)
  show ?thesis
  proof (cases buf)
    case (Buf8 c0 c1 c2 c3 c4 c5 c6 c7)
    show ?thesis
      unfolding fields Buf8 by (simp add: check_frame_eq lo hi)
  qed
qed

text \<open>
  C2 says that each reading is the table formula with truncating division. That is so
  for speed, coolant temperature, throttle and load (\<open>decodeVehicleSpeed_formula\<close>,
  \<open>decodeCoolantTemp_formula\<close>, \<open>decodeThrottlePosition_formula\<close>,
  \<open>decodeEngineLoad_formula\<close>), for the five examples (\<open>spec_examples\<close>) and for the
  RPM while byte 0 is below 0x80 (\<open>decodeEngineRPM_low\<close>). From 0x80 on,
  \<^verbatim>\<open>response[0] * 256\<close> no longer fits the 16-bit \<^verbatim>\<open>int\<close>
  (\<open>decodeEngineRPM_high\<close>). The theorem runs \<^verbatim>\<open>getEngineRPM\<close> on the reply with
  data bytes (0x80, 0x00): the exchange succeeds and the reading is - 8192, where the
  formula gives 8192.
\<close>

theorem C2_rpm_overflow:
  "fst (readOBDResponse PID_ENGINE_RPM (bus 0 [Some (reply 0x0C 0x80 0x00)])) =
     Response [0x80, 0x00, 0, 0, 0] \<and>
   fst (getEngineRPM (bus 0 [Some (reply 0x0C 0x80 0x00)])) = - 8192 \<and>
   (0x80 * 256 + 0x00) div 4 = (8192 :: int)"
  by (simp add: eval_defs)

text \<open>
  C3 says that the RPM read from a successful exchange lies in 0..16383 and is never
  negative. The theorem runs \<^verbatim>\<open>getEngineRPM\<close> on the reply with data bytes
  (0xC3, 0x50), 12500 rpm by the formula: the exchange succeeds and the reading is - 3884.
\<close>

theorem C3_rpm_negative:
  "fst (readOBDResponse PID_ENGINE_RPM (bus 0 [Some (reply 0x0C 0xC3 0x50)])) =
     Response [0xC3, 0x50, 0, 0, 0] \<and>
   fst (getEngineRPM (bus 0 [Some (reply 0x0C 0xC3 0x50)])) = - 3884 \<and>
   fst (getEngineRPM (bus 0 [Some (reply 0x0C 0xC3 0x50)])) < 0"
  by (simp add: eval_defs)

text \<open>
  C4 says that no reading of a successful exchange equals the failure sentinel of its
  PID. That is so for speed, coolant temperature, throttle and load
  (\<open>readings_off_sentinel\<close>). The theorem runs \<^verbatim>\<open>getEngineRPM\<close> on the reply with
  data bytes (0xFF, 0xFC): the exchange succeeds and the reading is - 1, the value
  \<^verbatim>\<open>getEngineRPM\<close> also returns when the exchange times out.
\<close>

theorem C4_rpm_sentinel:
  "fst (readOBDResponse PID_ENGINE_RPM (bus 0 [Some (reply 0x0C 0xFF 0xFC)])) =
     Response [0xFF, 0xFC, 0, 0, 0] \<and>
   fst (getEngineRPM (bus 0 [Some (reply 0x0C 0xFF 0xFC)])) = - 1 \<and>
   fst (getEngineRPM (bus 0 [])) = - 1"
  by (simp add: eval_defs)

text \<open>
  C5. If no poll ever finds a frame, \<^verbatim>\<open>readOBDResponse\<close> returns \<^verbatim>\<open>false\<close>
  (Timeout), and the \<^verbatim>\<open>millis()\<close> clock has then advanced by at least 100 ms and by at
  most 100 ms plus one idle interval of 5 ms since the start time it recorded. The
  subtraction is modulo \<open>2 ^ 32\<close>, so this also holds when the counter wraps during the wait.
\<close>

theorem C5_timeout_window:
  assumes "set (inbox s) \<subseteq> {None}"
  shows "fst (readOBDResponse pid s) = Timeout \<and>
         100 \<le> unat (clock (snd (readOBDResponse pid s)) - clock s) \<and>
         unat (clock (snd (readOBDResponse pid s)) - clock s) \<le> 100 + 5"
proof -
  have t: "fst (readOBDResponse pid s) = Timeout"
    using assms by (simp add: readOBDResponse_def loop_silent)
  then have "unat (clock (snd (readOBDResponse pid s)) - clock s) = 100"
    by (simp add: readOBDResponse_Timeout_iff)
  with t show ?thesis by simp
qed

theorem C5_timeout_window_witness:
  "set (inbox (bus 0xFFFFFFFA [None, None])) \<subseteq> {None} \<and>
   fst (readOBDResponse 0x0C (bus 0xFFFFFFFA [None, None])) = Timeout \<and>
   clock (snd (readOBDResponse 0x0C (bus 0xFFFFFFFA [None, None]))) = 94 \<and>
   100 \<le> unat (clock (snd (readOBDResponse 0x0C (bus 0xFFFFFFFA [None, None])))
                 - clock (bus 0xFFFFFFFA [None, None])) \<and>
   unat (clock (snd (readOBDResponse 0x0C (bus 0xFFFFFFFA [None, None])))
         - clock (bus 0xFFFFFFFA [None, None])) \<le> 100 + 5"
  using C5_timeout_window [of "bus 0xFFFFFFFA [None, None]" "0x0C"]
  by (simp add: eval_defs)

text \<open>
  C6. \<^verbatim>\<open>sendOBDRequest\<close> hands one frame to the controller: identifier 0x7DF,
  eight bytes, byte 0 = 0x02, byte 1 = 0x01, byte 2 = the PID, bytes 3 to 7 = 0x00.
\<close>

theorem C6_request_frame:
  "sent (sendOBDRequest pid s) = sent s @ [last (sent (sendOBDRequest pid s))] \<and>
   tx_id (last (sent (sendOBDRequest pid s))) = 0x7DF \<and>
   tx_len (last (sent (sendOBDRequest pid s))) = 8 \<and>
   length (tx_data (last (sent (sendOBDRequest pid s)))) = 8 \<and>
   tx_data (last (sent (sendOBDRequest pid s))) ! 0 = 0x02 \<and>
   tx_data (last (sent (sendOBDRequest pid s))) ! 1 = 0x01 \<and>
   tx_data (last (sent (sendOBDRequest pid s))) ! 2 = pid \<and>
   tx_data (last (sent (sendOBDRequest pid s))) ! 3 = 0x00 \<and>
   tx_data (last (sent (sendOBDRequest pid s))) ! 4 = 0x00 \<and>
   tx_data (last (sent (sendOBDRequest pid s))) ! 5 = 0x00 \<and>
   tx_data (last (sent (sendOBDRequest pid s))) ! 6 = 0x00 \<and>
   tx_data (last (sent (sendOBDRequest pid s))) ! 7 = 0x00"
  by (simp add: sendOBDRequest_def sendMsgBuf_def OBD_REQUEST_ID_def)

text \<open>
  C7. A sweep runs the five exchanges for Engine RPM (0x0C), Vehicle Speed (0x0D),
  Coolant Temperature (0x05), Throttle Position (0x11) and Engine Load (0x04) in this
  order, each exactly once and each on the state the one before left, whatever the bus
  delivers: the state after the sweep is the state after these five exchanges, with the
  report of their five results printed. Each exchange ends with a response or a timeout.
  The requests sent are the five requests in this order. \<^verbatim>\<open>loop\<close> runs exactly this
  when a sweep is due and no exchange otherwise.
\<close>

theorem C7_sweep_order:
  "sweep s = print (sweep_report (outcomes [0x0C, 0x0D, 0x05, 0x11, 0x04] s))
               (queried [0x0C, 0x0D, 0x05, 0x11, 0x04] s) \<and>
   length (outcomes [0x0C, 0x0D, 0x05, 0x11, 0x04] s) = 5 \<and>
   OutOfBounds \<notin> set (outcomes [0x0C, 0x0D, 0x05, 0x11, 0x04] s) \<and>
   sent (sweep s) = sent s @ map request [0x0C, 0x0D, 0x05, 0x11, 0x04] \<and>
   loop s =
     delay 10
       (if OBD_REQUEST_INTERVAL \<le> clock s - lastRequestTime s
        then print (sweep_report
                      (outcomes [0x0C, 0x0D, 0x05, 0x11, 0x04] (s\<lparr>lastRequestTime := clock s\<rparr>)))
               (queried [0x0C, 0x0D, 0x05, 0x11, 0x04] (s\<lparr>lastRequestTime := clock s\<rparr>))
        else s) \<and>
   sent (loop s) =
     (if OBD_REQUEST_INTERVAL \<le> clock s - lastRequestTime s
      then sent s @ map request [0x0C, 0x0D, 0x05, 0x11, 0x04]
      else sent s)"
proof -
  have a: "sent (loop s) =
     (if OBD_REQUEST_INTERVAL \<le> clock s - lastRequestTime s
      then sent s @ map request [0x0C, 0x0D, 0x05, 0x11, 0x04]
      else sent s)"
    by (simp add: sweep_requests loop_def Let_def millis_def delay_def)
  have b: "loop s =
     delay 10
       (if OBD_REQUEST_INTERVAL \<le> clock s - lastRequestTime s
        then print (sweep_report
                      (outcomes [0x0C, 0x0D, 0x05, 0x11, 0x04] (s\<lparr>lastRequestTime := clock s\<rparr>)))
               (queried [0x0C, 0x0D, 0x05, 0x11, 0x04] (s\<lparr>lastRequestTime := clock s\<rparr>))
        else s)"
    unfolding loop_def Let_def millis_def sweep_queried by (rule refl)
  have c: "OutOfBounds \<notin> set (outcomes [0x0C, 0x0D, 0x05, 0x11, 0x04] s)"
    using query_not_OutOfBounds by (auto simp: eq_commute)
  have d: "length (outcomes [0x0C, 0x0D, 0x05, 0x11, 0x04] s) = 5"
    by simp
  have e: "sent (sweep s) = sent s @ map request [0x0C, 0x0D, 0x05, 0x11, 0x04]"
    by (rule sweep_requests)
  from sweep_queried [of s] a b c d e show ?thesis
    by blast
qed

theorem C7_sweep_order_witness:
  "OBD_REQUEST_INTERVAL \<le> clock mixed_bus - lastRequestTime mixed_bus \<and>
   inbox mixed_bus = [Some (reply 0x0C 0x1A 0xF8), Some (reply 0x0C 0x1A 0xF8)] \<and>
   outcomes [0x0C, 0x0D, 0x05, 0x11, 0x04] (mixed_bus\<lparr>lastRequestTime := 1000\<rparr>) =
     [Response [0x1A, 0xF8, 0, 0, 0], Timeout, Timeout, Timeout, Timeout] \<and>
   inbox (loop mixed_bus) = [] \<and>
   clock (loop mixed_bus) = 1410 \<and>
   map tx_data (sent (loop mixed_bus)) =
     [[0x02, 0x01, 0x0C, 0, 0, 0, 0, 0], [0x02, 0x01, 0x0D, 0, 0, 0, 0, 0],
      [0x02, 0x01, 0x05, 0, 0, 0, 0, 0], [0x02, 0x01, 0x11, 0, 0, 0, 0, 0],
      [0x02, 0x01, 0x04, 0, 0, 0, 0, 0]] \<and>
   serial (loop mixed_bus) =
     [Text ''--- Reading OBD-II Data ---'', Newline,
      Text ''Engine RPM: '', Number 1726, Text '' RPM'', Newline,
      Text ''Vehicle Speed: READ FAILED'', Newline,
      Text ''Coolant Temp: READ FAILED'', Newline,
      Text ''Throttle Position: READ FAILED'', Newline,
      Text ''Engine Load: READ FAILED'', Newline, Newline] \<and>
   loop (bus 999 []) = delay 10 (bus 999 [])"
proof -
  have d: "OBD_REQUEST_INTERVAL \<le> clock mixed_bus - lastRequestTime mixed_bus"
    "clock mixed_bus = 1000"
    "\<not> OBD_REQUEST_INTERVAL \<le> clock (bus 999 []) - lastRequestTime (bus 999 [])"
    by (simp_all add: mixed_bus_def bus_def OBD_REQUEST_INTERVAL_def)
  have o: "outcomes [0x0C, 0x0D, 0x05, 0x11, 0x04] (mixed_bus\<lparr>lastRequestTime := 1000\<rparr>) =
     [Response [0x1A, 0xF8, 0, 0, 0], Timeout, Timeout, Timeout, Timeout]"
    by (simp add: mixed_bus_def query_def eval_defs)
  have q: "queried [0x0C, 0x0D, 0x05, 0x11, 0x04] (mixed_bus\<lparr>lastRequestTime := 1000\<rparr>) =
     \<lparr>lastRequestTime = 1000, clock = 1400, inbox = [],
      sent = map request [0x0C, 0x0D, 0x05, 0x11, 0x04], serial = []\<rparr>"
    by (simp add: mixed_bus_def query_def request_def eval_defs)
  have r: "sweep_report [Response [0x1A, 0xF8, 0, 0, 0], Timeout, Timeout, Timeout, Timeout] =
     [Text ''--- Reading OBD-II Data ---'', Newline,
      Text ''Engine RPM: '', Number 1726, Text '' RPM'', Newline,
      Text ''Vehicle Speed: READ FAILED'', Newline,
      Text ''Coolant Temp: READ FAILED'', Newline,
      Text ''Throttle Position: READ FAILED'', Newline,
      Text ''Engine Load: READ FAILED'', Newline, Newline]"
    by (simp add: sweep_report_def report_line_def reading_def Let_def eval_defs)
  from C7_sweep_order [of mixed_bus] d
  have 1: "loop mixed_bus =
      delay 10 (print (sweep_report
          (outcomes [0x0C, 0x0D, 0x05, 0x11, 0x04] (mixed_bus\<lparr>lastRequestTime := 1000\<rparr>)))
        (queried [0x0C, 0x0D, 0x05, 0x11, 0x04] (mixed_bus\<lparr>lastRequestTime := 1000\<rparr>)))"
    by simp
  from C7_sweep_order [of "bus 999 []"] d
  have 2: "loop (bus 999 []) = delay 10 (bus 999 [])"
    by simp
  show ?thesis
    unfolding 1 2 o q r
    by (simp add: print_def delay_def request_def mixed_bus_def bus_def OBD_REQUEST_INTERVAL_def)
qed

text \<open>
  C8. A frame that fails the matching check is dropped and the loop goes on with the same
  start time. Frames that do not match have the effect of polls that find nothing: with
  them or without them the exchange returns the same result at the same time. That time
  is never more than 100 ms after the start, and it is exactly 100 ms after the start
  when the result is Timeout.
\<close>

theorem C8_nonmatching_traffic:
  "(inbox s = Some f # rest \<and> check_frame pid f = Ignored \<and> clock s - st < 100 \<longrightarrow>
      readOBDResponse_loop pid st s =
      readOBDResponse_loop pid st (delay 5 (s\<lparr>inbox := rest\<rparr>))) \<and>
   fst (readOBDResponse pid (with_inbox (mute pid) s)) = fst (readOBDResponse pid s) \<and>
   clock (snd (readOBDResponse pid (with_inbox (mute pid) s))) =
     clock (snd (readOBDResponse pid s)) \<and>
   unat (clock (snd (readOBDResponse pid s)) - clock s) \<le> 100 \<and>
   (fst (readOBDResponse pid s) = Timeout) =
     (unat (clock (snd (readOBDResponse pid s)) - clock s) = 100)"
  using readOBDResponse_Timeout_iff [of pid s]
  by (simp add: loop_discard readOBDResponse_with_inbox outcome_of_mute clock_with_inbox
      readOBDResponse_elapsed_le)

theorem C8_nonmatching_traffic_witness:
  "inbox busy_bus = Some (reply 0x0D 0x3C 0x00) # [None, Some (reply 0x0C 0x1A 0xF8)] \<and>
   check_frame 0x0C (reply 0x0D 0x3C 0x00) = Ignored \<and>
   clock busy_bus - 0 < 100 \<and>
   readOBDResponse_loop 0x0C 0 busy_bus =
     readOBDResponse_loop 0x0C 0
       (delay 5 (busy_bus\<lparr>inbox := [None, Some (reply 0x0C 0x1A 0xF8)]\<rparr>)) \<and>
   fst (readOBDResponse 0x0C busy_bus) = Response [0x1A, 0xF8, 0, 0, 0] \<and>
   clock (snd (readOBDResponse 0x0C busy_bus)) = 10 \<and>
   fst (readOBDResponse 0x0D (busy_bus\<lparr>inbox := [Some (reply 0x0C 0x1A 0xF8)]\<rparr>)) = Timeout \<and>
   clock (snd (readOBDResponse 0x0D (busy_bus\<lparr>inbox := [Some (reply 0x0C 0x1A 0xF8)]\<rparr>))) = 100"
  using C8_nonmatching_traffic [of busy_bus "reply 0x0D 0x3C 0x00"
      "[None, Some (reply 0x0C 0x1A 0xF8)]" "0x0C" 0]
  by (simp add: busy_bus_def eval_defs)

text \<open>
  C9, amended. \<^verbatim>\<open>lastRequestTime\<close> is 0 when the program starts; \<^verbatim>\<open>setup\<close>,
  \<^verbatim>\<open>sendOBDRequest\<close>, \<^verbatim>\<open>readOBDResponse\<close>, the five \<^verbatim>\<open>get...\<close> functions and the
  sweep leave it unchanged; \<^verbatim>\<open>loop\<close> alone writes it, and it does so at the start of a
  sweep, before the first request: the value written is the time at which the sweep
  begins, not the time at which it is completed.
\<close>

theorem C9_polling_clock:
  "lastRequestTime (startup t frames) = 0 \<and>
   (setup_main ok s = Some s' \<longrightarrow> lastRequestTime s' = lastRequestTime s) \<and>
   lastRequestTime (sendOBDRequest pid s) = lastRequestTime s \<and>
   lastRequestTime (snd (readOBDResponse pid s)) = lastRequestTime s \<and>
   lastRequestTime (snd (getEngineRPM s)) = lastRequestTime s \<and>
   lastRequestTime (snd (getVehicleSpeed s)) = lastRequestTime s \<and>
   lastRequestTime (snd (getCoolantTemp s)) = lastRequestTime s \<and>
   lastRequestTime (snd (getThrottlePosition s)) = lastRequestTime s \<and>
   lastRequestTime (snd (getEngineLoad s)) = lastRequestTime s \<and>
   lastRequestTime (sweep s) = lastRequestTime s \<and>
   loop s = delay 10 (if OBD_REQUEST_INTERVAL \<le> clock s - lastRequestTime s
                      then sweep (s\<lparr>lastRequestTime := clock s\<rparr>) else s) \<and>
   lastRequestTime (loop s) =
     (if OBD_REQUEST_INTERVAL \<le> clock s - lastRequestTime s then clock s
      else lastRequestTime s)"
  using setup_main_lastRequestTime [of ok s s']
  by (simp add: startup_def sendOBDRequest_eq readOBDResponse_lastRequestTime snd_get
      query_lastRequestTime sweep_lastRequestTime loop_stamp)
     (simp add: loop_def Let_def millis_def)

theorem C9_polling_clock_witness:
  "setup_main True (startup 0 []) = Some booted \<and>
   lastRequestTime booted = lastRequestTime (startup 0 []) \<and>
   clock booted = 1000 \<and>
   OBD_REQUEST_INTERVAL \<le> clock booted - lastRequestTime booted \<and>
   lastRequestTime (loop booted) = 1000"
proof -
  have b: "setup_main True (startup 0 []) = Some booted"
    by (simp add: booted_def setup_main_def)
  have c: "clock booted = 1000" "lastRequestTime booted = 0"
    by (simp_all add: booted_def setup_main_def startup_def print_def delay_def)
  from C9_polling_clock [of 0 "[]" True "startup 0 []" booted "0x0C"] b
  have 1: "lastRequestTime booted = lastRequestTime (startup 0 [])"
    by blast
  from C9_polling_clock [of 0 "[]" True booted booted "0x0C"]
  have 2: "lastRequestTime (loop booted) =
      (if OBD_REQUEST_INTERVAL \<le> clock booted - lastRequestTime booted then clock booted
       else lastRequestTime booted)"
    by blast
  show ?thesis
    using b 1 2 by (simp add: c OBD_REQUEST_INTERVAL_def)
qed

text \<open>
  C9 as stated has the timestamp written after each completed sweep. On a quiet bus at
  time 1000 the sweep is completed at time 1500, and the timestamp \<^verbatim>\<open>loop\<close> leaves is
  1000: the next sweep is due at time 2000, which it would not be if the timestamp were
  that of the completion.
\<close>

theorem C9_stamp_counterexample:
  "clock (bus 1000 []) = 1000 \<and>
   OBD_REQUEST_INTERVAL \<le> clock (bus 1000 []) - lastRequestTime (bus 1000 []) \<and>
   clock (sweep ((bus 1000 [])\<lparr>lastRequestTime := 1000\<rparr>)) = 1500 \<and>
   clock (loop (bus 1000 [])) = 1510 \<and>
   lastRequestTime (loop (bus 1000 [])) = 1000 \<and>
   lastRequestTime (loop (bus 1000 [])) \<noteq>
     clock (sweep ((bus 1000 [])\<lparr>lastRequestTime := 1000\<rparr>)) \<and>
   OBD_REQUEST_INTERVAL \<le> 2000 - lastRequestTime (loop (bus 1000 [])) \<and>
   \<not> OBD_REQUEST_INTERVAL \<le> 2000 - clock (sweep ((bus 1000 [])\<lparr>lastRequestTime := 1000\<rparr>))"
proof -
  have c: "clock (sweep ((bus 1000 [])\<lparr>lastRequestTime := 1000\<rparr>)) = 1500"
    by (simp add: sweep_clock_silent bus_def)
  have l: "loop (bus 1000 []) = delay 10 (sweep ((bus 1000 [])\<lparr>lastRequestTime := 1000\<rparr>))"
    by (simp add: loop_def Let_def millis_def bus_def OBD_REQUEST_INTERVAL_def)
  show ?thesis
    unfolding l by (simp add: c delay_def sweep_lastRequestTime)
       (simp add: bus_def OBD_REQUEST_INTERVAL_def)
qed

text \<open>
  C10. \<^verbatim>\<open>readOBDResponse\<close> reads the receive buffer at indices 1, 2 and 3 to 7 only,
  all inside its eight bytes, so no read is out of bounds; the length a frame reports is
  not looked at, and changing it changes neither the check of a frame nor the result or
  the duration of an exchange.
\<close>

theorem C10_buffer_bounds:
  "(buf_at b i = None) = (8 \<le> i) \<and>
   check_frame pid f \<noteq> BadIndex \<and>
   check_frame pid (f\<lparr>rx_len := n\<rparr>) = check_frame pid f \<and>
   fst (readOBDResponse pid s) \<noteq> OutOfBounds \<and>
   fst (readOBDResponse pid (with_inbox (set_len h) s)) = fst (readOBDResponse pid s) \<and>
   clock (snd (readOBDResponse pid (with_inbox (set_len h) s))) =
     clock (snd (readOBDResponse pid s))"
proof -
  have "(buf_at b i = None) = (8 \<le> i)"
    by (cases b) auto
  moreover have "check_frame pid (f\<lparr>rx_len := n\<rparr>) = check_frame pid f"
    by (simp add: check_frame_def)
  moreover have "fst (readOBDResponse pid s) \<noteq> OutOfBounds"
    by (simp add: readOBDResponse_def loop_not_OutOfBounds)
  ultimately show ?thesis
    by (simp add: check_frame_not_BadIndex readOBDResponse_with_inbox outcome_of_set_len
        clock_with_inbox)
qed

end
